theory Spec2Isabelle
  imports Complex_Main "HOL-Library.List_Lexorder" "HOL-Library.AList"
begin

section \<open>Text as Python sees it\<close>

text \<open>
  A Python \<open>str\<close> is a sequence of Unicode code points, and \<open>len\<close>, slicing and
  comparison work on code points. A string is therefore a list of natural numbers (the
  code points); lists are ordered lexicographically, which is the order of Python's
  \<open>sorted\<close> on strings. \<open>S\<close> turns a literal into such a list.
\<close>

type_synonym str = "nat list"

abbreviation (input) S :: "string \<Rightarrow> str" where
  "S s \<equiv> map of_char s"

abbreviation (input) LF :: nat where "LF \<equiv> 10"
abbreviation (input) CR :: nat where "CR \<equiv> 13"

text \<open>The code points for which \<open>str.isspace\<close> holds; \<open>str.strip()\<close> removes them.\<close>

definition is_space :: "nat \<Rightarrow> bool" where
  "is_space c \<longleftrightarrow>
     (9 \<le> c \<and> c \<le> 13) \<or> (28 \<le> c \<and> c \<le> 32) \<or> c = 133 \<or> c = 160 \<or> c = 5760 \<or>
     (8192 \<le> c \<and> c \<le> 8202) \<or> c = 8232 \<or> c = 8233 \<or> c = 8239 \<or> c = 8287 \<or> c = 12288"

definition py_strip :: "str \<Rightarrow> str" where
  "py_strip s = rev (dropWhile is_space (rev (dropWhile is_space s)))"

text \<open>\<open>s.lstrip(c)\<close> for a single character \<open>c\<close>.\<close>

definition py_lstrip :: "nat \<Rightarrow> str \<Rightarrow> str" where
  "py_lstrip c s = dropWhile (\<lambda>x. x = c) s"

definition startswith :: "str \<Rightarrow> str \<Rightarrow> bool" where
  "startswith s p \<longleftrightarrow> take (length p) s = p"

definition endswith :: "str \<Rightarrow> str \<Rightarrow> bool" where
  "endswith s p \<longleftrightarrow> length p \<le> length s \<and> drop (length s - length p) s = p"

text \<open>The index of the first occurrence of \<open>sub\<close> in \<open>s\<close>, if there is one.\<close>

fun find_at :: "str \<Rightarrow> str \<Rightarrow> nat option" where
  "find_at [] sub = (if sub = [] then Some 0 else None)"
| "find_at (c # cs) sub =
     (if take (length sub) (c # cs) = sub then Some 0 else map_option Suc (find_at cs sub))"

text \<open>\<open>s.find(sub)\<close>: the index of the first occurrence, or \<open>-1\<close>.\<close>

definition py_find :: "str \<Rightarrow> str \<Rightarrow> int" where
  "py_find s sub = (case find_at s sub of None \<Rightarrow> - 1 | Some i \<Rightarrow> int i)"

text \<open>\<open>sub in s\<close>.\<close>

definition contains :: "str \<Rightarrow> str \<Rightarrow> bool" where
  "contains s sub \<longleftrightarrow> find_at s sub \<noteq> None"

text \<open>\<open>s[a:b]\<close> for indices that are not negative.\<close>

definition py_slice :: "str \<Rightarrow> int \<Rightarrow> int \<Rightarrow> str" where
  "py_slice s a b = take (nat b - nat a) (drop (nat a) s)"

text \<open>\<open>sep.join(xs)\<close>.\<close>

fun py_join :: "str \<Rightarrow> str list \<Rightarrow> str" where
  "py_join sep [] = []"
| "py_join sep [x] = x"
| "py_join sep (x # y # ys) = x @ sep @ py_join sep (y # ys)"

text \<open>\<open>str(n)\<close> for an integer.\<close>

fun digits :: "nat \<Rightarrow> str" where
  "digits n = (if n < 10 then [48 + n] else digits (n div 10) @ [48 + n mod 10])"

definition py_str :: "int \<Rightarrow> str" where
  "py_str i = (if i < 0 then 45 # digits (nat (- i)) else digits (nat i))"

text \<open>
  A file opened with \<open>open(path, 'r', encoding='utf-8')\<close> is read with universal
  newlines: \<open>\r\n\<close> and a lone \<open>\r\<close> arrive as \<open>\n\<close>. Writing on a POSIX system
  stores the text as it is.
\<close>

fun universal_newlines :: "str \<Rightarrow> str" where
  "universal_newlines [] = []"
| "universal_newlines [c] = [if c = CR then LF else c]"
| "universal_newlines (c # d # ds) =
     (if c = CR then (if d = LF then LF # universal_newlines ds
                      else LF # universal_newlines (d # ds))
      else c # universal_newlines (d # ds))"

text \<open>Iterating over a text file: the lines, each with its line feed when it has one.\<close>

fun readlines :: "str \<Rightarrow> str list" where
  "readlines [] = []"
| "readlines (c # cs) =
     (if c = LF then [LF] # readlines cs
      else (case readlines cs of [] \<Rightarrow> [[c]] | l # ls \<Rightarrow> (c # l) # ls))"

text \<open>
  What UTF-8 can encode: every code point but the surrogates, which a file name that is
  not UTF-8 brings into a \<open>str\<close>.
\<close>

definition encodable :: "str \<Rightarrow> bool" where
  "encodable s = list_all (\<lambda>c. c < 55296 \<or> (57343 < c \<and> c < 1114112)) s"

section \<open>The file system\<close>

text \<open>
  The content of a file is what reading it as UTF-8 text yields. \<open>Text raw\<close> decodes as
  a whole to \<open>raw\<close>. \<open>Broken pre\<close> does not: reading it raises an error, after the text
  \<open>pre\<close> of the blocks before the faulty one has been decoded (\<open>Broken []\<close> also stands for
  a file that cannot be opened).

  A directory lists its entries in the order in which the file system enumerates them.
  \<open>Link t\<close> is a link to the entry \<open>t\<close> of the same directory: whatever opens, reads, or
  writes the link's name acts on \<open>t\<close>. A path is the list of names leading from the root
  of the tree.
\<close>

datatype content = Text str | Broken str

datatype node = File content | Dir "(str \<times> node) list" | Link str

type_synonym path = "str list"

datatype exn =
    FileNotFoundError | NotADirectoryError | IsADirectoryError | LoopError
  | UnicodeDecodeError | UnicodeEncodeError | ValueError

text \<open>
  The entry that a name of a directory stands for, links followed. The system follows a
  bounded number of links (40) and fails beyond.
\<close>

fun follow :: "(str \<times> node) list \<Rightarrow> nat \<Rightarrow> str \<Rightarrow> exn + node" where
  "follow es k x =
     (case map_of es x of
        None \<Rightarrow> Inl FileNotFoundError
      | Some (Link t) \<Rightarrow> if k = 0 then Inl LoopError else follow es (k - 1) t
      | Some n \<Rightarrow> Inr n)"

definition entry :: "(str \<times> node) list \<Rightarrow> str \<Rightarrow> exn + node" where
  "entry es x = follow es 40 x"

text \<open>What a path leads to, or the error of the system call that walks it.\<close>

fun lookup :: "node \<Rightarrow> path \<Rightarrow> exn + node" where
  "lookup n [] = Inr n"
| "lookup n (x # xs) =
     (case n of
        Dir es \<Rightarrow> (case entry es x of Inl e \<Rightarrow> Inl e | Inr m \<Rightarrow> lookup m xs)
      | _ \<Rightarrow> Inl NotADirectoryError)"

definition resolve :: "node \<Rightarrow> path \<Rightarrow> node option" where
  "resolve fs p = (case lookup fs p of Inl e \<Rightarrow> None | Inr n \<Rightarrow> Some n)"

text \<open>\<open>path.exists()\<close> and \<open>path.is_dir()\<close>: false when the path cannot be walked.\<close>

definition exists :: "node \<Rightarrow> path \<Rightarrow> bool" where
  "exists fs p \<longleftrightarrow> resolve fs p \<noteq> None"

definition is_dir :: "node \<Rightarrow> path \<Rightarrow> bool" where
  "is_dir fs p = (case resolve fs p of Some (Dir es) \<Rightarrow> True | _ \<Rightarrow> False)"

text \<open>
  \<open>path.iterdir()\<close>: the names in a directory; it raises the error of the walk, or
  \<open>NotADirectoryError\<close> when the path leads to a file.
\<close>

definition iterdir :: "node \<Rightarrow> path \<Rightarrow> exn + str list" where
  "iterdir fs p =
     (case lookup fs p of
        Inl e \<Rightarrow> Inl e
      | Inr (Dir es) \<Rightarrow> Inr (map fst es)
      | Inr _ \<Rightarrow> Inl NotADirectoryError)"

text \<open>The names that \<open>glob('*.md')\<close> selects.\<close>

definition is_md :: "str \<Rightarrow> bool" where
  "is_md name \<longleftrightarrow> endswith name (S ''.md'')"

text \<open>
  \<open>dir.glob('*.md')\<close>: the matching names in the order of enumeration; none when \<open>dir\<close> is
  no directory.
\<close>

definition glob_md :: "node \<Rightarrow> path \<Rightarrow> str list" where
  "glob_md fs dir =
     (case resolve fs dir of Some (Dir es) \<Rightarrow> filter is_md (map fst es) | _ \<Rightarrow> [])"

text \<open>
  \<open>Path.stem\<close>: the name without its last suffix; a dot that opens or closes the name
  starts no suffix.
\<close>

definition rfind_dot :: "str \<Rightarrow> nat option" where
  "rfind_dot name =
     (let k = length (takeWhile (\<lambda>c. c \<noteq> 46) (rev name))
      in if k = length name then None else Some (length name - 1 - k))"

definition stem :: "str \<Rightarrow> str" where
  "stem name =
     (case rfind_dot name of
        None \<Rightarrow> name
      | Some i \<Rightarrow> if 0 < i \<and> i < length name - 1 then take i name else name)"

text \<open>\<open>open(path, 'r', encoding='utf-8')\<close>: the content to read, or the error of opening.\<close>

definition open_read :: "node \<Rightarrow> path \<Rightarrow> exn + content" where
  "open_read fs p =
     (case lookup fs p of
        Inl e \<Rightarrow> Inl e
      | Inr (File c) \<Rightarrow> Inr c
      | Inr _ \<Rightarrow> Inl IsADirectoryError)"

text \<open>
  The lines that a loop over the open file sees before the file ends or the error is
  raised. Of a broken file these are the lines that end within the decoded text; a
  carriage return at its very end is held back, since a line feed may follow.
\<close>

definition held_back :: "str \<Rightarrow> str" where
  "held_back pre = (if pre \<noteq> [] \<and> last pre = CR then butlast pre else pre)"

definition lines_read :: "content \<Rightarrow> str list" where
  "lines_read c =
     (case c of
        Text raw \<Rightarrow> readlines (universal_newlines raw)
      | Broken pre \<Rightarrow>
          filter (\<lambda>l. l \<noteq> [] \<and> last l = LF) (readlines (universal_newlines (held_back pre))))"

text \<open>
  \<open>open(path, 'w', encoding='utf-8')\<close> in a directory: the name of the entry that is
  created or emptied, links followed.
\<close>

fun write_target :: "(str \<times> node) list \<Rightarrow> nat \<Rightarrow> str \<Rightarrow> exn + str" where
  "write_target es k x =
     (case map_of es x of
        None \<Rightarrow> Inr x
      | Some (File c) \<Rightarrow> Inr x
      | Some (Dir ds) \<Rightarrow> Inl IsADirectoryError
      | Some (Link t) \<Rightarrow> if k = 0 then Inl LoopError else write_target es (k - 1) t)"

text \<open>
  Opening a file for writing and writing a text to it. Text that cannot be encoded
  raises once the file is open, which leaves the file empty.
\<close>

definition write_text :: "(str \<times> node) list \<Rightarrow> str \<Rightarrow> str \<Rightarrow> (exn + unit) \<times> (str \<times> node) list" where
  "write_text es x txt =
     (case write_target es 40 x of
        Inl e \<Rightarrow> (Inl e, es)
      | Inr t \<Rightarrow>
          if encodable txt then (Inr (), AList.update t (File (Text txt)) es)
          else (Inl UnicodeEncodeError, AList.update t (File (Text [])) es))"


section \<open>sync-manifests.py\<close>

subsection \<open>get_first_heading\<close>

text \<open>
  The loop over the lines of the file: \<open>Some d\<close> when it returns \<open>d\<close>, \<open>None\<close> when
  the lines run out.
\<close>

fun first_heading_loop :: "str list \<Rightarrow> str option" where
  "first_heading_loop [] = None"
| "first_heading_loop (l # ls) =
     (let line = py_strip l in
      if line = [] then first_heading_loop ls
      else if startswith line (S ''#'') then Some (py_strip (py_lstrip 35 line))
      else Some (take 80 line @ (if length line > 80 then S ''...'' else [])))"

text \<open>
  Any exception of opening or reading the file is swallowed: the loop has returned by
  then, or the function returns the sentinel.
\<close>

definition get_first_heading :: "node \<Rightarrow> path \<Rightarrow> str" where
  "get_first_heading fs file_path =
     (case open_read fs file_path of
        Inl e \<Rightarrow> S ''No description''
      | Inr c \<Rightarrow>
          (case first_heading_loop (lines_read c) of
             Some d \<Rightarrow> d
           | None \<Rightarrow> S ''No description''))"

subsection \<open>generate_manifest_content\<close>

text \<open>
  The functions that work on one \<open>Knowledge\<close> directory take the listing of that
  directory: its entries, in the order of enumeration. A file of the directory is
  reached by its name, from the listing as the root.
\<close>

type_synonym folder = "(str \<times> node) list"

text \<open>
  \<open>sorted([f for f in knowledge_dir.glob('*.md') if f.name != 'MANIFEST.md'])\<close>: paths of
  one directory compare by their last component, the file name.
\<close>

definition md_files :: "folder \<Rightarrow> str list" where
  "md_files knowledge_dir =
     sort (filter (\<lambda>f. f \<noteq> S ''MANIFEST.md'') (glob_md (Dir knowledge_dir) []))"

definition manifest_row :: "folder \<Rightarrow> str \<Rightarrow> str" where
  "manifest_row knowledge_dir md_file =
     S ''| [['' @ stem md_file @ S '']] | '' @
     get_first_heading (Dir knowledge_dir) [md_file] @ S '' |''"

definition generate_manifest_content :: "folder \<Rightarrow> str" where
  "generate_manifest_content knowledge_dir =
     (let files = md_files knowledge_dir;
          lines = [S ''# Knowledge Manifest'', [], S ''| File | Description |'',
                   S ''|------|-------------|''] @
                  (if files = [] then [S ''| *(empty)* | Add notes to this folder |'']
                   else map (manifest_row knowledge_dir) files) @
                  [[]]
      in py_join [LF] lines)"

subsection \<open>update_manifest\<close>

text \<open>
  The result of the call, a value or the exception it raises, and the listing after it.
\<close>

definition update_manifest :: "folder \<Rightarrow> bool \<Rightarrow> (exn + bool) \<times> folder" where
  "update_manifest knowledge_dir check_only =
     (let manifest_path = [S ''MANIFEST.md''];
          new_content = generate_manifest_content knowledge_dir
      in case (if exists (Dir knowledge_dir) manifest_path
               then (case open_read (Dir knowledge_dir) manifest_path of
                       Inl e \<Rightarrow> Inl e
                     | Inr (Text raw) \<Rightarrow> Inr (universal_newlines raw)
                     | Inr (Broken pre) \<Rightarrow> Inl UnicodeDecodeError)
               else Inr []) of
           Inl e \<Rightarrow> (Inl e, knowledge_dir)
         | Inr current_content \<Rightarrow>
             if current_content = new_content then (Inr True, knowledge_dir)
             else if check_only then (Inr False, knowledge_dir)
             else (case write_text knowledge_dir (S ''MANIFEST.md'') new_content of
                     (Inl e, written) \<Rightarrow> (Inl e, written)
                   | (Inr u, written) \<Rightarrow> (Inr False, written)))"

subsection \<open>get_pillars\<close>

text \<open>The variant of sync-manifests.py: a pillar has a \<open>Knowledge\<close> entry.\<close>

definition sync_get_pillars :: "node \<Rightarrow> path \<Rightarrow> exn + str list" where
  "sync_get_pillars fs vault_root =
     (case iterdir fs vault_root of
        Inl e \<Rightarrow> Inl e
      | Inr names \<Rightarrow>
          Inr (sort (filter (\<lambda>name. is_dir fs (vault_root @ [name]) \<and>
                                      \<not> startswith name (S ''.'') \<and>
                                      exists fs (vault_root @ [name, S ''Knowledge'']))
                            names)))"

section \<open>vault-cleaner.py: manifest drift\<close>

subsection \<open>get_pillars\<close>

definition get_pillars :: "node \<Rightarrow> path \<Rightarrow> exn + str list" where
  "get_pillars fs vault_root =
     (case iterdir fs vault_root of
        Inl e \<Rightarrow> Inl e
      | Inr names \<Rightarrow>
          Inr (sort (filter (\<lambda>name. is_dir fs (vault_root @ [name]) \<and>
                                      \<not> startswith name (S ''.'') \<and>
                                      (exists fs (vault_root @ [name, S ''Inbox'']) \<or>
                                       exists fs (vault_root @ [name, S ''Projects'']) \<or>
                                       exists fs (vault_root @ [name, S ''Knowledge''])))
                            names)))"

subsection \<open>parse_manifest\<close>

text \<open>The body of the loop over the lines of the manifest.\<close>

definition parse_line :: "str \<Rightarrow> str set \<Rightarrow> str set" where
  "parse_line l entries =
     (let line = py_strip l in
      if startswith line (S ''|'') \<and> contains line (S ''[['') then
        (let start = py_find line (S ''[['');
             endi = py_find line (S '']]'')
         in if start \<noteq> - 1 \<and> endi \<noteq> - 1
            then insert (py_slice line (start + 2) endi) entries
            else entries)
      else entries)"

text \<open>
  A manifest that does not exist gives no entries. An exception of opening or reading
  is swallowed: the entries are those of the lines read before it.
\<close>

definition parse_manifest :: "node \<Rightarrow> path \<Rightarrow> str set" where
  "parse_manifest fs manifest_path =
     (if \<not> exists fs manifest_path then {}
      else case open_read fs manifest_path of
             Inl e \<Rightarrow> {}
           | Inr c \<Rightarrow> fold parse_line (lines_read c) {})"

subsection \<open>get_actual_files\<close>

definition get_actual_files :: "node \<Rightarrow> path \<Rightarrow> str set" where
  "get_actual_files fs knowledge_dir =
     (if \<not> exists fs knowledge_dir then {}
      else stem ` set (filter (\<lambda>f. f \<noteq> S ''MANIFEST.md'') (glob_md fs knowledge_dir)))"

subsection \<open>check_manifest_sync\<close>

record drift =
  add :: "str list"
  remove :: "str list"

text \<open>
  A dictionary is an association list in the order of insertion; assigning to a key
  replaces its value in place or appends the key.
\<close>

definition manifest_sync_step :: "node \<Rightarrow> path \<Rightarrow> str \<Rightarrow> (str \<times> drift) list \<Rightarrow> (str \<times> drift) list" where
  "manifest_sync_step fs vault_root pillar issues =
     (let knowledge_dir = vault_root @ [pillar, S ''Knowledge''];
          manifest_path = knowledge_dir @ [S ''MANIFEST.md'']
      in if \<not> exists fs knowledge_dir then issues
         else
           (let manifest_entries = parse_manifest fs manifest_path;
                actual_files = get_actual_files fs knowledge_dir;
                missing_from_manifest = actual_files - manifest_entries;
                extra_in_manifest = manifest_entries - actual_files
            in if missing_from_manifest \<noteq> {} \<or> extra_in_manifest \<noteq> {}
               then AList.update pillar
                      \<lparr>add = sorted_list_of_set missing_from_manifest,
                       remove = sorted_list_of_set extra_in_manifest\<rparr> issues
               else issues))"

definition check_manifest_sync :: "node \<Rightarrow> path \<Rightarrow> exn + (str \<times> drift) list" where
  "check_manifest_sync fs vault_root =
     (case get_pillars fs vault_root of
        Inl e \<Rightarrow> Inl e
      | Inr pillars \<Rightarrow> Inr (fold (manifest_sync_step fs vault_root) pillars []))"


section \<open>vault-cleaner.py: the age of a file\<close>

text \<open>
  A \<open>datetime\<close> without a time zone is a point of the local wall clock, counted in
  microseconds; the difference of two is a \<open>timedelta\<close>, whose \<open>days\<close> are its whole days,
  rounded down. A POSIX timestamp is a number of seconds, an integer from the version
  control and a float from the file system.
\<close>

type_synonym datetime = int

text \<open>
  What the functions ask of the world around them: \<open>run_git file vault_root\<close> is
  \<open>subprocess.run(['git', 'log', '-1', '--format=%ct', '--', str(file)], cwd=vault_root)\<close>,
  which raises or gives the exit status and the output; \<open>py_int\<close> is \<open>int\<close> on a string;
  \<open>fromtimestamp\<close> is \<open>datetime.fromtimestamp\<close>; \<open>st_mtime\<close> is \<open>path.stat().st_mtime\<close>;
  \<open>clock k\<close> is what the \<open>k\<close>-th call of \<open>datetime.now()\<close> returns. The functions that
  read the clock take the number of readings so far and return the new number.
\<close>

record env =
  run_git :: "path \<Rightarrow> path \<Rightarrow> exn + int \<times> str"
  py_int :: "str \<Rightarrow> exn + int"
  fromtimestamp :: "real \<Rightarrow> exn + datetime"
  st_mtime :: "path \<Rightarrow> exn + real"
  clock :: "nat \<Rightarrow> datetime"

definition INBOX_AGE_THRESHOLD_DAYS :: int where
  "INBOX_AGE_THRESHOLD_DAYS = 3"

definition PROJECT_STALE_THRESHOLD_DAYS :: int where
  "PROJECT_STALE_THRESHOLD_DAYS = 30"

subsection \<open>get_file_last_modified\<close>

text \<open>
  The first \<open>try\<close> block: \<open>Inl\<close> when it raises, \<open>Inr (Some dt)\<close> when it returns \<open>dt\<close>,
  \<open>Inr None\<close> when it ends without returning.
\<close>

definition try_git :: "env \<Rightarrow> path \<Rightarrow> path \<Rightarrow> exn + datetime option" where
  "try_git env file_path vault_root =
     (case run_git env file_path vault_root of
        Inl e \<Rightarrow> Inl e
      | Inr (returncode, stdout) \<Rightarrow>
          if returncode = 0 \<and> py_strip stdout \<noteq> [] then
            (case py_int env (py_strip stdout) of
               Inl e \<Rightarrow> Inl e
             | Inr timestamp \<Rightarrow>
                 (case fromtimestamp env (of_int timestamp) of
                    Inl e \<Rightarrow> Inl e
                  | Inr dt \<Rightarrow> Inr (Some dt)))
          else Inr None)"

text \<open>The second \<open>try\<close> block.\<close>

definition try_mtime :: "env \<Rightarrow> path \<Rightarrow> exn + datetime" where
  "try_mtime env file_path =
     (case st_mtime env file_path of
        Inl e \<Rightarrow> Inl e
      | Inr mtime \<Rightarrow> fromtimestamp env mtime)"

definition get_file_last_modified :: "env \<Rightarrow> path \<Rightarrow> path \<Rightarrow> nat \<Rightarrow> (exn + datetime) \<times> nat" where
  "get_file_last_modified env file_path vault_root k =
     (case try_git env file_path vault_root of
        Inr (Some dt) \<Rightarrow> (Inr dt, k)
      | _ \<Rightarrow>
          (case try_mtime env file_path of
             Inr dt \<Rightarrow> (Inr dt, k)
           | Inl e \<Rightarrow> (Inr (clock env k), Suc k)))"

subsection \<open>days_since\<close>

definition days_since :: "env \<Rightarrow> datetime \<Rightarrow> nat \<Rightarrow> int \<times> nat" where
  "days_since env dt k = ((clock env k - dt) div 86400000000, Suc k)"

subsection \<open>check_inbox_items\<close>

record file_item =
  name :: str
  age_days :: int

text \<open>The loop over the files of an \<open>Inbox\<close> folder.\<close>

fun inbox_files :: "env \<Rightarrow> path \<Rightarrow> path \<Rightarrow> str list \<Rightarrow> file_item list \<Rightarrow> nat \<Rightarrow>
    exn + file_item list \<times> nat" where
  "inbox_files env vault_root inbox_dir [] pillar_items k = Inr (pillar_items, k)"
| "inbox_files env vault_root inbox_dir (f # fs) pillar_items k =
     (case get_file_last_modified env (inbox_dir @ [f]) vault_root k of
        (Inl e, k1) \<Rightarrow> Inl e
      | (Inr last_modified, k1) \<Rightarrow>
          (case days_since env last_modified k1 of
             (age, k2) \<Rightarrow>
               inbox_files env vault_root inbox_dir fs
                 (if age \<ge> INBOX_AGE_THRESHOLD_DAYS
                  then pillar_items @ [\<lparr>name = f, age_days = age\<rparr>]
                  else pillar_items) k2))"

text \<open>The loop over the pillars.\<close>

fun inbox_pillars :: "env \<Rightarrow> node \<Rightarrow> path \<Rightarrow> str list \<Rightarrow> (str \<times> file_item list) list \<Rightarrow> nat \<Rightarrow>
    exn + (str \<times> file_item list) list \<times> nat" where
  "inbox_pillars env fs vault_root [] items k = Inr (items, k)"
| "inbox_pillars env fs vault_root (pillar # ps) items k =
     (let inbox_dir = vault_root @ [pillar, S ''Inbox'']
      in if \<not> exists fs inbox_dir then inbox_pillars env fs vault_root ps items k
         else
           (case inbox_files env vault_root inbox_dir (glob_md fs inbox_dir) [] k of
              Inl e \<Rightarrow> Inl e
            | Inr (pillar_items, k1) \<Rightarrow>
                inbox_pillars env fs vault_root ps
                  (if pillar_items \<noteq> []
                   then AList.update pillar (sort_key (\<lambda>x. - age_days x) pillar_items) items
                   else items) k1))"

definition check_inbox_items :: "env \<Rightarrow> node \<Rightarrow> path \<Rightarrow> nat \<Rightarrow>
    exn + (str \<times> file_item list) list \<times> nat" where
  "check_inbox_items env fs vault_root k =
     (case get_pillars fs vault_root of
        Inl e \<Rightarrow> Inl e
      | Inr pillars \<Rightarrow> inbox_pillars env fs vault_root pillars [] k)"

subsection \<open>check_stale_projects\<close>

fun project_files :: "env \<Rightarrow> path \<Rightarrow> path \<Rightarrow> str list \<Rightarrow> file_item list \<Rightarrow> nat \<Rightarrow>
    exn + file_item list \<times> nat" where
  "project_files env vault_root projects_dir [] pillar_stale k = Inr (pillar_stale, k)"
| "project_files env vault_root projects_dir (f # fs) pillar_stale k =
     (case get_file_last_modified env (projects_dir @ [f]) vault_root k of
        (Inl e, k1) \<Rightarrow> Inl e
      | (Inr last_modified, k1) \<Rightarrow>
          (case days_since env last_modified k1 of
             (age, k2) \<Rightarrow>
               project_files env vault_root projects_dir fs
                 (if age \<ge> PROJECT_STALE_THRESHOLD_DAYS
                  then pillar_stale @ [\<lparr>name = f, age_days = age\<rparr>]
                  else pillar_stale) k2))"

fun project_pillars :: "env \<Rightarrow> node \<Rightarrow> path \<Rightarrow> str list \<Rightarrow> (str \<times> file_item list) list \<Rightarrow> nat \<Rightarrow>
    exn + (str \<times> file_item list) list \<times> nat" where
  "project_pillars env fs vault_root [] stale k = Inr (stale, k)"
| "project_pillars env fs vault_root (pillar # ps) stale k =
     (let projects_dir = vault_root @ [pillar, S ''Projects'']
      in if \<not> exists fs projects_dir then project_pillars env fs vault_root ps stale k
         else
           (case project_files env vault_root projects_dir (glob_md fs projects_dir) [] k of
              Inl e \<Rightarrow> Inl e
            | Inr (pillar_stale, k1) \<Rightarrow>
                project_pillars env fs vault_root ps
                  (if pillar_stale \<noteq> []
                   then AList.update pillar (sort_key (\<lambda>x. - age_days x) pillar_stale) stale
                   else stale) k1))"

definition check_stale_projects :: "env \<Rightarrow> node \<Rightarrow> path \<Rightarrow> nat \<Rightarrow>
    exn + (str \<times> file_item list) list \<times> nat" where
  "check_stale_projects env fs vault_root k =
     (case get_pillars fs vault_root of
        Inl e \<Rightarrow> Inl e
      | Inr pillars \<Rightarrow> project_pillars env fs vault_root pillars [] k)"

section \<open>vault-cleaner.py: the report\<close>

subsection \<open>generate_issue_body\<close>

text \<open>The lines that the loops over the three dictionaries append.\<close>

fun manifest_issue_lines :: "str \<times> drift \<Rightarrow> str list" where
  "manifest_issue_lines (pillar, issues) =
       ([S ''### '' @ pillar @ S ''/Knowledge/MANIFEST.md'', []] @
        map (\<lambda>name. S ''- Add: '' @ [96] @ S ''[['' @ name @ S '']]'' @ [96]) (add issues) @
        map (\<lambda>name. S ''- Remove: '' @ [96] @ S ''[['' @ name @ S '']]'' @ [96]) (remove issues) @
        [[]])"

definition item_line :: "file_item \<Rightarrow> str" where
  "item_line item =
     S ''- '' @ [96] @ name item @ [96] @ S '' ('' @ py_str (age_days item) @ S '' days)''"

fun inbox_lines :: "str \<times> file_item list \<Rightarrow> str list" where
  "inbox_lines (pillar, items) =
     [S ''### '' @ pillar @ S ''/Inbox/'', []] @ map item_line items @ [[]]"

fun project_lines :: "str \<times> file_item list \<Rightarrow> str list" where
  "project_lines (pillar, projects) =
     [S ''### '' @ pillar @ S ''/Projects/'', []] @ map item_line projects @ [[]]"

text \<open>The three sections, each from the number it is given.\<close>

definition manifest_section :: "int \<Rightarrow> (str \<times> drift) list \<Rightarrow> str list" where
  "manifest_section task_num manifest_issues =
     [S ''## '' @ py_str task_num @ S ''. Fix Manifest Files'', [],
      S ''The following MANIFEST.md files are out of sync:'', []] @
     concat (map manifest_issue_lines manifest_issues) @
     [S ''**Instructions:** Regenerate each manifest by scanning the Knowledge/ folder.'',
      S ''Each entry should be: '' @ [96] @ S ''| [[filename]] | first heading or description |'' @ [96],
      []]"

definition inbox_section :: "int \<Rightarrow> (str \<times> file_item list) list \<Rightarrow> str list" where
  "inbox_section task_num inbox_items =
     [S ''## '' @ py_str task_num @ S ''. Process Inbox Items'', [],
      S ''The following items have been in Inbox for '' @ py_str INBOX_AGE_THRESHOLD_DAYS @
        S ''+ days:'', []] @
     concat (map inbox_lines inbox_items) @
     [S ''**Instructions:** Review each file. Either:'',
      S ''- Move to '' @ [96] @ S ''Knowledge/'' @ [96] @ S '' if it is reference material'',
      S ''- Move to '' @ [96] @ S ''Projects/'' @ [96] @ S '' if it is active work'',
      S ''- Delete if no longer needed'', [],
      S ''After moving files to Knowledge/, update the corresponding MANIFEST.md.'', []]"

definition projects_section :: "int \<Rightarrow> (str \<times> file_item list) list \<Rightarrow> str list" where
  "projects_section task_num stale_projects =
     [S ''## '' @ py_str task_num @ S ''. Archive Stale Projects'', [],
      S ''The following projects have not been modified in '' @
        py_str PROJECT_STALE_THRESHOLD_DAYS @ S ''+ days:'', []] @
     concat (map project_lines stale_projects) @
     [S ''**Instructions:** For each stale project:'',
      S ''1. Create an archived summary in '' @ [96] @ S ''Knowledge/'' @ [96],
      S ''2. Include the current git commit hash for reference'',
      S ''3. Delete the original project file'',
      S ''4. Update MANIFEST.md'', []]"

definition generate_issue_body ::
    "(str \<times> drift) list \<Rightarrow> (str \<times> file_item list) list \<Rightarrow> (str \<times> file_item list) list \<Rightarrow> str" where
  "generate_issue_body manifest_issues inbox_items stale_projects =
     (let lines0 = [S ''# Vault Cleaning Tasks'', [],
                    S ''This issue was auto-generated by the weekly vault cleaning workflow.'',
                    S ''Please complete the following tasks.'', []];
          task_num0 = 1;
          lines1 = (if manifest_issues \<noteq> [] then lines0 @ manifest_section task_num0 manifest_issues
                    else lines0);
          task_num1 = (if manifest_issues \<noteq> [] then task_num0 + 1 else task_num0);
          lines2 = (if inbox_items \<noteq> [] then lines1 @ inbox_section task_num1 inbox_items
                    else lines1);
          task_num2 = (if inbox_items \<noteq> [] then task_num1 + 1 else task_num1);
          lines3 = (if stale_projects \<noteq> [] then lines2 @ projects_section task_num2 stale_projects
                    else lines2);
          lines4 = lines3 @ [S ''---'', [],
                    S ''When complete, the PR should include all changes and updated manifests.'', []]
      in py_join [LF] lines4)"

subsection \<open>main\<close>

text \<open>
  The run of the scanner on a vault: the value of \<open>has_tasks\<close> and the text written to
  \<open>cleaning-tasks.md\<close>, if any. What it prints is left out.
\<close>

definition main :: "env \<Rightarrow> node \<Rightarrow> path \<Rightarrow> exn + bool \<times> str option" where
  "main env fs vault_root =
     (case check_manifest_sync fs vault_root of
        Inl e \<Rightarrow> Inl e
      | Inr manifest_issues \<Rightarrow>
          (case check_inbox_items env fs vault_root 0 of
             Inl e \<Rightarrow> Inl e
           | Inr (inbox_items, k1) \<Rightarrow>
               (case check_stale_projects env fs vault_root k1 of
                  Inl e \<Rightarrow> Inl e
                | Inr (stale_projects, k2) \<Rightarrow>
                    (let has_tasks = (manifest_issues \<noteq> [] \<or> inbox_items \<noteq> [] \<or>
                                      stale_projects \<noteq> [])
                     in if has_tasks
                        then (let issue_body = generate_issue_body manifest_issues inbox_items
                                                 stale_projects
                              in if encodable issue_body then Inr (True, Some issue_body)
                                 else Inl UnicodeEncodeError)
                        else Inr (False, None)))))"


section \<open>The words of the specification\<close>

subsection \<open>Descriptions\<close>

text \<open>
  The description of a note in the words of the specification: read the content; skip
  the blank lines; when the first line that is not blank begins with heading markers,
  strip them and the surrounding whitespace; otherwise return that line, cut to 80
  characters and followed by three dots when it is longer. Content that cannot be read or
  is blank throughout gives the sentinel. A line is taken without its line feed.
\<close>

definition is_blank :: "str \<Rightarrow> bool" where
  "is_blank l \<longleftrightarrow> py_strip l = []"

definition chomp :: "str \<Rightarrow> str" where
  "chomp l = (if l \<noteq> [] \<and> last l = LF then butlast l else l)"

definition derive_description :: "node \<Rightarrow> path \<Rightarrow> str" where
  "derive_description fs note =
     (case open_read fs note of
        Inr (Text raw) \<Rightarrow>
          (case dropWhile is_blank (map chomp (readlines (universal_newlines raw))) of
             [] \<Rightarrow> S ''No description''
           | l # ls \<Rightarrow>
               if startswith l (S ''#'') then py_strip (py_lstrip 35 l)
               else if length l > 80 then take 80 l @ S ''...''
               else l)
      | _ \<Rightarrow> S ''No description'')"

subsection \<open>Stems that survive the manifest\<close>

text \<open>
  A stem with no line break in it, with no two closing brackets in a row and no closing
  bracket at its end.
\<close>

definition plain_stem :: "str \<Rightarrow> bool" where
  "plain_stem st \<longleftrightarrow> LF \<notin> set st \<and> CR \<notin> set st \<and> \<not> contains (st @ S '']'') (S '']]'')"

subsection \<open>Ages and reports as the specification words them\<close>



section \<open>Examples\<close>

subsection \<open>Folders of notes\<close>

definition notes_a :: folder where
  "notes_a = [(S ''Note.md'', File (Text (S ''# A''))), (S ''Note 2.md'', File (Text (S ''# B'')))]"

definition cr_notes :: folder where
  "cr_notes = [(S ''a'' @ [CR] @ S ''b.md'', File (Text (S ''# A'')))]"

definition cr_notes_synced :: folder where
  "cr_notes_synced =
     cr_notes @ [(S ''MANIFEST.md'', File (Text (generate_manifest_content cr_notes)))]"

definition plain_notes :: folder where
  "plain_notes = [(S ''ab.md'', File (Text (S ''# A'')))]"

definition plain_notes_synced :: folder where
  "plain_notes_synced =
     plain_notes @ [(S ''MANIFEST.md'', File (Text (generate_manifest_content plain_notes)))]"

definition draft_notes :: folder where
  "draft_notes = [(S ''notes [draft].md'', File (Text (S ''# A'')))]"

definition draft_notes_synced :: folder where
  "draft_notes_synced =
     draft_notes @ [(S ''MANIFEST.md'', File (Text (generate_manifest_content draft_notes)))]"

text \<open>
  A note that starts with a heading and stops being text in its second block: the first
  block of 8192 bytes is decoded, the next is not.
\<close>

definition cut_off :: content where
  "cut_off = Broken (S ''# T'' @ LF # replicate 8188 120)"

subsection \<open>Vaults\<close>

definition plain_vault :: node where
  "plain_vault = Dir plain_notes_synced"

definition ghost_vault :: node where
  "ghost_vault =
     Dir [(S ''Work'', Dir [(S ''Knowledge'', Dir
       [(S ''New.md'', File (Text (S ''# New''))),
        (S ''MANIFEST.md'', File (Text (S ''| [[Ghost]] | gone |'' @ [LF])))])])]"

text \<open>
  A vault with a note at its root and a note of a few characters in a \<open>Knowledge\<close>
  folder, the manifest of the folder up to date.
\<close>

definition stray_vault :: node where
  "stray_vault =
     Dir [(S ''misplaced.md'', File (Text (S ''content''))),
          (S ''Personal'', Dir [(S ''Knowledge'', Dir plain_notes_synced)])]"

subsection \<open>A vault and its surroundings\<close>


definition desk_env :: env where
  "desk_env =
     \<lparr>run_git = (\<lambda>file_path vault_root.
        if file_path = [S ''Work'', S ''Inbox'', S ''three.md''] then Inr (0, S ''8424000'' @ [LF])
        else if file_path = [S ''Work'', S ''Projects'', S ''thirty.md''] then Inr (0, S ''6091200'' @ [LF])
        else Inr (0, [])),
      py_int = (\<lambda>s. if s = S ''8424000'' then Inr 8424000
                      else if s = S ''6091200'' then Inr 6091200
                      else Inl ValueError),
      fromtimestamp = (\<lambda>t. Inr (\<lfloor>t * 1000000\<rfloor>)),
      st_mtime = (\<lambda>file_path.
        if file_path = [S ''Work'', S ''Inbox'', S ''two.md''] then Inr 8424001
        else if file_path = [S ''Work'', S ''Projects'', S ''twentynine.md''] then Inr 6091201
        else if file_path = [S ''Work'', S ''Inbox'', S ''ahead.md''] then Inr 8686800
        else if file_path = [S ''Work'', S ''Projects'', S ''ahead.md''] then Inr 8686800
        else Inl FileNotFoundError),
      clock = (\<lambda>k. 8683200000000)\<rparr>"



section \<open>Lines of text\<close>

lemma universal_newlines_no_CR: "CR \<notin> set (universal_newlines s)"
  by (induction s rule: universal_newlines.induct) auto

lemma universal_newlines_id: "CR \<notin> set s \<Longrightarrow> universal_newlines s = s"
  by (induction s rule: universal_newlines.induct) auto

lemma readlines_line: "LF \<notin> set l \<Longrightarrow> readlines (l @ LF # rest) = (l @ [LF]) # readlines rest"
  by (induction l) auto

lemma readlines_lines:
  "\<forall>l\<in>set ls. LF \<notin> set l \<Longrightarrow>
   readlines (concat (map (\<lambda>l. l @ [LF]) ls)) = map (\<lambda>l. l @ [LF]) ls"
  by (induction ls) (simp_all add: readlines_line)

lemma readlines_single: "l \<noteq> [] \<Longrightarrow> LF \<notin> set l \<Longrightarrow> readlines l = [l]"
proof (induction l)
  case Nil then show ?case by simp
next
  case (Cons c cs)
  then show ?case by (cases "cs = []") auto
qed


section \<open>Pillar discovery\<close>

lemma follow_errors:
  "follow es k x = Inl e \<Longrightarrow> e = FileNotFoundError \<or> e = LoopError"
proof (induction es k x rule: follow.induct)
  case (1 es k x)
  show ?case
  proof (cases "map_of es x")
    case None
    then show ?thesis using "1.prems" by (subst (asm) follow.simps) simp
  next
    case (Some n)
    show ?thesis
    proof (cases n)
      case (File c)
      then show ?thesis using Some "1.prems" by (subst (asm) follow.simps) simp
    next
      case (Dir ds)
      then show ?thesis using Some "1.prems" by (subst (asm) follow.simps) simp
    next
      case (Link t)
      show ?thesis
      proof (cases "k = 0")
        case True
        then show ?thesis using Some Link "1.prems" by (subst (asm) follow.simps) simp
      next
        case False
        then have "follow es (k - 1) t = Inl e"
          using Some Link "1.prems" by (subst (asm) follow.simps) simp
        then show ?thesis using "1.IH"[OF Some Link False] by simp
      qed
    qed
  qed
qed

lemma lookup_errors:
  "lookup n p = Inl e \<Longrightarrow> e = FileNotFoundError \<or> e = NotADirectoryError \<or> e = LoopError"
proof (induction p arbitrary: n)
  case Nil
  then show ?case by simp
next
  case (Cons x xs)
  show ?case
  proof (cases n)
    case (Dir es)
    show ?thesis
    proof (cases "entry es x")
      case (Inl e')
      then have "e = e'" using Cons.prems Dir by simp
      then show ?thesis using Inl follow_errors[of es 40 x e'] by (auto simp: entry_def)
    next
      case (Inr m)
      then have "lookup m xs = Inl e" using Cons.prems Dir by simp
      then show ?thesis by (rule Cons.IH)
    qed
  next
    case (File c)
    then show ?thesis using Cons.prems by simp
  next
    case (Link t)
    then show ?thesis using Cons.prems by simp
  qed
qed

lemma iterdir_missing: "lookup fs p = Inl e \<Longrightarrow> iterdir fs p = Inl e"
  by (simp add: iterdir_def)

text \<open>
  C4, as the code has it: on a root directory that does not exist both variants of pillar
  discovery raise the error of walking the path to list it, which says that a name is
  missing, that the path runs through a file, or that links go round; neither variant
  returns a result.
\<close>

theorem get_pillars_missing_root:
  assumes "\<not> exists fs vault_root"
  shows "\<exists>e. lookup fs vault_root = Inl e \<and>
             sync_get_pillars fs vault_root = Inl e \<and>
             get_pillars fs vault_root = Inl e \<and>
             (e = FileNotFoundError \<or> e = NotADirectoryError \<or> e = LoopError)"
proof -
  obtain e where e: "lookup fs vault_root = Inl e"
    using assms by (cases "lookup fs vault_root") (simp_all add: exists_def resolve_def)
  have "iterdir fs vault_root = Inl e" using e by (rule iterdir_missing)
  then have "sync_get_pillars fs vault_root = Inl e \<and> get_pillars fs vault_root = Inl e"
    by (simp add: sync_get_pillars_def get_pillars_def)
  then show ?thesis using e lookup_errors[OF e] by blast
qed

theorem get_pillars_missing_root_witness:
  "\<not> exists (Dir []) [S ''vault''] \<and>
   sync_get_pillars (Dir []) [S ''vault''] = Inl FileNotFoundError \<and>
   get_pillars (Dir []) [S ''vault''] = Inl FileNotFoundError \<and>
   \<not> exists (Dir [(S ''notes.md'', File (Text []))]) [S ''notes.md'', S ''vault''] \<and>
   sync_get_pillars (Dir [(S ''notes.md'', File (Text []))]) [S ''notes.md'', S ''vault''] =
     Inl NotADirectoryError \<and>
   get_pillars (Dir [(S ''notes.md'', File (Text []))]) [S ''notes.md'', S ''vault''] =
     Inl NotADirectoryError"
proof -
  have a: "\<not> exists (Dir []) [S ''vault'']"
    by (simp add: exists_def resolve_def entry_def)
  have la: "lookup (Dir []) [S ''vault''] = Inl FileNotFoundError"
    by (simp add: entry_def)
  have b: "\<not> exists (Dir [(S ''notes.md'', File (Text []))]) [S ''notes.md'', S ''vault'']"
    by (simp add: exists_def resolve_def entry_def)
  have lb: "lookup (Dir [(S ''notes.md'', File (Text []))]) [S ''notes.md'', S ''vault''] =
      Inl NotADirectoryError"
    by (simp add: entry_def)
  show ?thesis
    using a b la lb get_pillars_missing_root[OF a] get_pillars_missing_root[OF b] by auto
qed

text \<open>
  C4, as the specification has it, fails: the root \<open>vault\<close> is absent from an empty
  tree, and neither variant returns the empty list of pillars.
\<close>

theorem get_pillars_missing_root_counterexample:
  "\<not> exists (Dir []) [S ''vault''] \<and>
   sync_get_pillars (Dir []) [S ''vault''] = Inl FileNotFoundError \<and>
   get_pillars (Dir []) [S ''vault''] = Inl FileNotFoundError \<and>
   sync_get_pillars (Dir []) [S ''vault''] \<noteq> Inr [] \<and>
   get_pillars (Dir []) [S ''vault''] \<noteq> Inr []"
  by (simp add: sync_get_pillars_def get_pillars_def iterdir_def exists_def resolve_def entry_def)

section \<open>Descriptions\<close>

lemma first_heading_loop_blank:
  "list_all is_blank bs \<Longrightarrow> first_heading_loop (bs @ ls) = first_heading_loop ls"
  by (induction bs) (simp_all add: is_blank_def)

lemma startswith_hash: "t \<noteq> [] \<Longrightarrow> startswith t [35] \<longleftrightarrow> hd t = 35"
  by (cases t) (simp_all add: startswith_def)

lemma first_heading_loop_head:
  "\<not> is_blank l \<Longrightarrow>
     first_heading_loop (l # ls) =
       Some (let t = py_strip l in
             if hd t = 35 then py_strip (dropWhile (\<lambda>c. c = 35) t)
             else if length t > 80 then take 80 t @ S ''...''
             else t)"
  by (simp add: is_blank_def Let_def startswith_hash py_lstrip_def)

text \<open>
  C5, as the code has it. The first line that is not blank is stripped of the white space
  around it before anything else: stripped, a heading loses its markers and the white
  space after them and keeps its length, and any other line is cut at 80 characters and
  gets three dots exactly when, stripped, it was longer. The sentinel is returned when the
  file cannot be opened and when all the lines read, up to the end of the file or to the
  point where it stops being text, are blank.
\<close>

theorem get_first_heading_stripped:
  "(\<forall>e. open_read fs note = Inl e \<longrightarrow> get_first_heading fs note = S ''No description'') \<and>
   (\<forall>c. open_read fs note = Inr c \<and> list_all is_blank (lines_read c) \<longrightarrow>
        get_first_heading fs note = S ''No description'') \<and>
   (\<forall>c blanks l rest.
        open_read fs note = Inr c \<and> lines_read c = blanks @ l # rest \<and>
        list_all is_blank blanks \<and> \<not> is_blank l \<longrightarrow>
        get_first_heading fs note =
          (let t = py_strip l in
           if hd t = 35 then py_strip (dropWhile (\<lambda>c. c = 35) t)
           else if length t > 80 then take 80 t @ S ''...''
           else t))"
proof (intro conjI allI impI)
  fix e assume "open_read fs note = Inl e"
  then show "get_first_heading fs note = S ''No description''"
    by (simp add: get_first_heading_def)
next
  fix c assume a: "open_read fs note = Inr c \<and> list_all is_blank (lines_read c)"
  then have "first_heading_loop (lines_read c @ []) = first_heading_loop []"
    by (intro first_heading_loop_blank) simp
  then show "get_first_heading fs note = S ''No description''"
    using a by (simp add: get_first_heading_def)
next
  fix c blanks l rest
  assume a: "open_read fs note = Inr c \<and> lines_read c = blanks @ l # rest \<and>
        list_all is_blank blanks \<and> \<not> is_blank l"
  then have "first_heading_loop (lines_read c) = first_heading_loop (l # rest)"
    by (simp add: first_heading_loop_blank)
  also have "\<dots> = Some (let t = py_strip l in
             if hd t = 35 then py_strip (dropWhile (\<lambda>c. c = 35) t)
             else if length t > 80 then take 80 t @ S ''...''
             else t)"
    using a by (intro first_heading_loop_head) simp
  finally show "get_first_heading fs note =
          (let t = py_strip l in
           if hd t = 35 then py_strip (dropWhile (\<lambda>c. c = 35) t)
           else if length t > 80 then take 80 t @ S ''...''
           else t)"
    using a by (simp add: get_first_heading_def)
qed

lemma titled_note:
  "open_read (Dir [(S ''n.md'', File (Text (LF # S ''  ## Title  '' @ LF # S ''body'')))]) [S ''n.md''] =
     Inr (Text (LF # S ''  ## Title  '' @ LF # S ''body''))"
  by (simp add: open_read_def entry_def)

theorem get_first_heading_stripped_witness:
  "open_read (Dir [(S ''n.md'', File (Text (LF # S ''  ## Title  '' @ LF # S ''body'')))]) [S ''n.md''] =
     Inr (Text (LF # S ''  ## Title  '' @ LF # S ''body'')) \<and>
   lines_read (Text (LF # S ''  ## Title  '' @ LF # S ''body'')) =
     [[LF]] @ (S ''  ## Title  '' @ [LF]) # [S ''body''] \<and>
   list_all is_blank [[LF]] \<and> \<not> is_blank (S ''  ## Title  '' @ [LF]) \<and>
   get_first_heading (Dir [(S ''n.md'', File (Text (LF # S ''  ## Title  '' @ LF # S ''body'')))])
     [S ''n.md''] = S ''Title''"
proof -
  let ?fs = "Dir [(S ''n.md'', File (Text (LF # S ''  ## Title  '' @ LF # S ''body'')))]"
  let ?c = "Text (LF # S ''  ## Title  '' @ LF # S ''body'')"
  have l: "lines_read ?c = [[LF]] @ (S ''  ## Title  '' @ [LF]) # [S ''body'']"
    by (simp add: lines_read_def)
  have b: "list_all is_blank [[LF]]" by (simp add: is_blank_def py_strip_def is_space_def)
  have n: "\<not> is_blank (S ''  ## Title  '' @ [LF])"
    by (simp add: is_blank_def py_strip_def is_space_def)
  have v: "(let t = py_strip (S ''  ## Title  '' @ [LF]) in
           if hd t = 35 then py_strip (dropWhile (\<lambda>c. c = 35) t)
           else if length t > 80 then take 80 t @ S ''...''
           else t) = S ''Title''"
    by (simp add: py_strip_def is_space_def)
  have "get_first_heading ?fs [S ''n.md''] =
          (let t = py_strip (S ''  ## Title  '' @ [LF]) in
           if hd t = 35 then py_strip (dropWhile (\<lambda>c. c = 35) t)
           else if length t > 80 then take 80 t @ S ''...''
           else t)"
    using get_first_heading_stripped[of ?fs "[S ''n.md'']"] titled_note l b n by blast
  then show ?thesis using titled_note l b n v by simp
qed

lemma lines_read_cut_off: "lines_read cut_off = [S ''# T'' @ [LF]]"
proof -
  let ?pre = "S ''# T'' @ LF # replicate 8188 120"
  have h: "held_back ?pre = ?pre" by (simp add: held_back_def)
  have "CR \<notin> set ?pre" by auto
  then have u: "universal_newlines ?pre = ?pre" by (rule universal_newlines_id)
  have "readlines (replicate 8188 120) = [replicate 8188 120]"
    by (rule readlines_single) auto
  moreover have "readlines (S ''# T'' @ LF # replicate 8188 120) =
      (S ''# T'' @ [LF]) # readlines (replicate 8188 120)"
    by (rule readlines_line) simp
  ultimately have r: "readlines ?pre = [S ''# T'' @ [LF], replicate 8188 120]" by simp
  show ?thesis
    unfolding cut_off_def lines_read_def content.case h u r by simp
qed

text \<open>
  C5, as the specification has it, fails. Of a note whose first line is \<open>  # Title\<close> the
  description is \<open>Title\<close>, though the line begins with a blank and not with a heading
  marker; and of a note that stops being text after its first block the description is
  the heading \<open>T\<close> found in that block, not the sentinel.
\<close>

theorem get_first_heading_spec_counterexample:
  "get_first_heading (Dir [(S ''n.md'', File (Text (S ''  # Title'')))]) [S ''n.md''] = S ''Title'' \<and>
   derive_description (Dir [(S ''n.md'', File (Text (S ''  # Title'')))]) [S ''n.md''] =
     S ''  # Title'' \<and>
   get_first_heading (Dir [(S ''n.md'', File cut_off)]) [S ''n.md''] = S ''T'' \<and>
   derive_description (Dir [(S ''n.md'', File cut_off)]) [S ''n.md''] = S ''No description''"
proof -
  have a: "get_first_heading (Dir [(S ''n.md'', File (Text (S ''  # Title'')))]) [S ''n.md''] =
        S ''Title'' \<and>
      derive_description (Dir [(S ''n.md'', File (Text (S ''  # Title'')))]) [S ''n.md''] =
        S ''  # Title''"
    by (simp add: get_first_heading_def derive_description_def open_read_def entry_def
        lines_read_def chomp_def is_blank_def py_strip_def is_space_def
        startswith_def py_lstrip_def)
  have o: "open_read (Dir [(S ''n.md'', File cut_off)]) [S ''n.md''] = Inr cut_off"
    by (simp add: open_read_def entry_def)
  have b: "get_first_heading (Dir [(S ''n.md'', File cut_off)]) [S ''n.md''] = S ''T''"
    unfolding get_first_heading_def o sum.case lines_read_cut_off
    by (simp add: py_strip_def is_space_def startswith_def py_lstrip_def)
  have c: "derive_description (Dir [(S ''n.md'', File cut_off)]) [S ''n.md''] = S ''No description''"
    unfolding derive_description_def o by (simp add: cut_off_def)
  show ?thesis using a b c by simp
qed


section \<open>The order of the manifest\<close>

lemma md_files_notes_a: "md_files notes_a = [S ''Note 2.md'', S ''Note.md'']"
  by (simp add: md_files_def glob_md_def resolve_def notes_a_def is_md_def endswith_def)

lemma rows_notes_a:
  "manifest_row notes_a (S ''Note 2.md'') = S ''| [[Note 2]] | B |''"
  "manifest_row notes_a (S ''Note.md'') = S ''| [[Note]] | A |''"
  by (simp_all add: manifest_row_def stem_def rfind_dot_def get_first_heading_def open_read_def
      entry_def notes_a_def lines_read_def py_strip_def is_space_def startswith_def py_lstrip_def)

text \<open>
  C3 fails on the code: the notes are sorted by their file names, not by their stems. Of
  the notes \<open>Note.md\<close> and \<open>Note 2.md\<close> the manifest lists \<open>Note 2\<close> first, because a
  blank sorts before the dot of the extension, while \<open>Note\<close> is the smaller stem.
\<close>

theorem manifest_rows_by_file_name:
  "md_files notes_a = [S ''Note 2.md'', S ''Note.md''] \<and>
   map stem (md_files notes_a) = [S ''Note 2'', S ''Note''] \<and>
   S ''Note'' < S ''Note 2'' \<and>
   generate_manifest_content notes_a =
     S ''# Knowledge Manifest'' @ [LF, LF] @ S ''| File | Description |'' @ [LF] @
     S ''|------|-------------|'' @ [LF] @ S ''| [[Note 2]] | B |'' @ [LF] @
     S ''| [[Note]] | A |'' @ [LF]"
proof -
  have s: "map stem [S ''Note 2.md'', S ''Note.md''] = [S ''Note 2'', S ''Note'']"
    by (simp add: stem_def rfind_dot_def)
  have g: "generate_manifest_content notes_a =
     S ''# Knowledge Manifest'' @ [LF, LF] @ S ''| File | Description |'' @ [LF] @
     S ''|------|-------------|'' @ [LF] @ S ''| [[Note 2]] | B |'' @ [LF] @
     S ''| [[Note]] | A |'' @ [LF]"
    unfolding generate_manifest_content_def md_files_notes_a Let_def
    by (simp add: rows_notes_a[simplified])
  show ?thesis unfolding md_files_notes_a s using g by simp
qed

theorem manifest_rows_by_file_name_witness:
  "\<not> sorted_wrt (<) (map stem (md_files notes_a))"
  using manifest_rows_by_file_name by (simp add: stem_def rfind_dot_def)

section \<open>Synchronising the manifest\<close>

lemma md_files_cr_notes: "md_files cr_notes = [S ''a'' @ [CR] @ S ''b.md'']"
  by (simp add: md_files_def glob_md_def resolve_def cr_notes_def is_md_def endswith_def)

lemma md_files_cr_notes_synced: "md_files cr_notes_synced = [S ''a'' @ [CR] @ S ''b.md'']"
  by (simp add: md_files_def glob_md_def resolve_def cr_notes_synced_def cr_notes_def is_md_def
      endswith_def)

lemma row_cr_notes:
  "manifest_row cr_notes (S ''a'' @ [CR] @ S ''b.md'') = S ''| [[a'' @ [CR] @ S ''b]] | A |''"
  "manifest_row cr_notes_synced (S ''a'' @ [CR] @ S ''b.md'') = S ''| [[a'' @ [CR] @ S ''b]] | A |''"
  by (simp_all add: manifest_row_def stem_def rfind_dot_def get_first_heading_def open_read_def
      entry_def cr_notes_synced_def cr_notes_def lines_read_def py_strip_def is_space_def
      startswith_def py_lstrip_def)

lemma generate_cr_notes:
  "generate_manifest_content cr_notes =
     S ''# Knowledge Manifest'' @ [LF, LF] @ S ''| File | Description |'' @ [LF] @
     S ''|------|-------------|'' @ [LF] @ S ''| [[a'' @ [CR] @ S ''b]] | A |'' @ [LF]"
  unfolding generate_manifest_content_def md_files_cr_notes Let_def
  by (simp add: row_cr_notes[simplified])

lemma generate_cr_notes_synced:
  "generate_manifest_content cr_notes_synced = generate_manifest_content cr_notes"
  unfolding generate_manifest_content_def md_files_cr_notes md_files_cr_notes_synced Let_def
  by (simp add: row_cr_notes[simplified])

lemma manifest_cr_notes:
  "map_of cr_notes (S ''MANIFEST.md'') = None"
  "map_of cr_notes_synced (S ''MANIFEST.md'') =
     Some (File (Text (generate_manifest_content cr_notes)))"
  by (simp_all add: cr_notes_synced_def cr_notes_def)

text \<open>
  C1 fails on the code: a note whose file name holds a carriage return puts that
  character into the manifest. The first call writes the manifest as it is generated;
  the second reads it back with the carriage return turned into a line feed, finds it
  different from the text generated anew, which is the same as before, reports the
  manifest out of sync and writes it again.
\<close>

theorem update_manifest_rewrites:
  "update_manifest cr_notes False = (Inr False, cr_notes_synced) \<and>
   generate_manifest_content cr_notes_synced = generate_manifest_content cr_notes \<and>
   open_read (Dir cr_notes_synced) [S ''MANIFEST.md''] =
     Inr (Text (generate_manifest_content cr_notes_synced)) \<and>
   update_manifest cr_notes_synced False = (Inr False, cr_notes_synced)"
proof -
  have n: "generate_manifest_content cr_notes \<noteq> []" unfolding generate_cr_notes by simp
  have e: "encodable (generate_manifest_content cr_notes)"
    unfolding generate_cr_notes by (simp add: encodable_def)
  have w1: "write_text cr_notes (S ''MANIFEST.md'') (generate_manifest_content cr_notes) =
      (Inr (), cr_notes_synced)"
    by (simp add: write_text_def e manifest_cr_notes[simplified])
       (simp add: cr_notes_synced_def cr_notes_def)
  have a: "update_manifest cr_notes False = (Inr False, cr_notes_synced)"
    unfolding update_manifest_def Let_def
    using n by (simp add: exists_def resolve_def entry_def manifest_cr_notes[simplified] w1[simplified])
  have o: "open_read (Dir cr_notes_synced) [S ''MANIFEST.md''] =
     Inr (Text (generate_manifest_content cr_notes))"
    by (simp add: open_read_def entry_def manifest_cr_notes[simplified])
  have u: "universal_newlines (generate_manifest_content cr_notes) \<noteq>
      generate_manifest_content cr_notes"
    unfolding generate_cr_notes by simp
  have w2: "write_text cr_notes_synced (S ''MANIFEST.md'') (generate_manifest_content cr_notes) =
      (Inr (), cr_notes_synced)"
    by (simp add: write_text_def e manifest_cr_notes[simplified])
       (simp add: cr_notes_synced_def cr_notes_def)
  have b: "update_manifest cr_notes_synced False = (Inr False, cr_notes_synced)"
    unfolding update_manifest_def Let_def generate_cr_notes_synced
    using u by (simp add: exists_def resolve_def o[simplified] entry_def
        manifest_cr_notes[simplified] w2[simplified])
  show ?thesis using a b o generate_cr_notes_synced by simp
qed

theorem update_manifest_rewrites_witness:
  "fst (update_manifest cr_notes_synced False) \<noteq> Inr True \<and>
   snd (update_manifest cr_notes False) = cr_notes_synced"
  using update_manifest_rewrites by simp


section \<open>From the manifest back to the notes\<close>

subsection \<open>The characters of a description\<close>

lemma set_readlines: "l \<in> set (readlines s) \<Longrightarrow> set l \<subseteq> set s"
proof (induction s arbitrary: l)
  case Nil then show ?case by simp
next
  case (Cons c cs)
  show ?case
  proof (cases "c = LF")
    case True
    with Cons show ?thesis by auto
  next
    case False
    show ?thesis
    proof (cases "readlines cs")
      case Nil
      with False Cons.prems show ?thesis by auto
    next
      case (Cons l1 ls)
      have "set l1 \<subseteq> set cs" using Cons.IH[of l1] Cons by simp
      moreover have "\<And>k. k \<in> set ls \<Longrightarrow> set k \<subseteq> set cs" using Cons.IH Cons by simp
      ultimately show ?thesis using False Cons Cons.prems by auto
    qed
  qed
qed

lemma readlines_butlast: "l \<in> set (readlines s) \<Longrightarrow> LF \<notin> set (butlast l)"
proof (induction s arbitrary: l)
  case Nil then show ?case by simp
next
  case (Cons c cs)
  show ?case
  proof (cases "c = LF")
    case True
    with Cons show ?thesis by auto
  next
    case False
    show ?thesis
    proof (cases "readlines cs")
      case Nil
      with False Cons.prems show ?thesis by auto
    next
      case (Cons l1 ls)
      have "LF \<notin> set (butlast l1)" using Cons.IH[of l1] Cons by simp
      moreover have "\<And>k. k \<in> set ls \<Longrightarrow> LF \<notin> set (butlast k)" using Cons.IH Cons by simp
      ultimately show ?thesis using False Cons Cons.prems by (auto split: if_splits)
    qed
  qed
qed

lemma lines_read_chars:
  assumes "l \<in> set (lines_read c)"
  shows "CR \<notin> set l \<and> LF \<notin> set (butlast l)"
proof -
  obtain s where "l \<in> set (readlines (universal_newlines s))"
    using assms by (cases c) (auto simp: lines_read_def)
  then show ?thesis
    using set_readlines universal_newlines_no_CR readlines_butlast by blast
qed

lemma set_py_strip: "set (py_strip s) \<subseteq> set s"
  unfolding py_strip_def by (auto dest!: set_dropWhileD)

lemma is_space_LF: "is_space LF"
  by (simp add: is_space_def)

lemma dropWhile_butlast: "LF \<notin> set (butlast l) \<Longrightarrow> LF \<notin> set (butlast (dropWhile P l))"
proof (induction l)
  case Nil then show ?case by simp
next
  case (Cons a l)
  then show ?case by (cases "l = []") (auto split: if_splits)
qed

lemma py_strip_no_LF: "LF \<notin> set (butlast l) \<Longrightarrow> LF \<notin> set (py_strip l)"
proof -
  assume a: "LF \<notin> set (butlast l)"
  define x where "x = dropWhile is_space l"
  have b: "LF \<notin> set (butlast x)" unfolding x_def using a by (rule dropWhile_butlast)
  show ?thesis
  proof (cases "x = []")
    case True
    then show ?thesis by (simp add: py_strip_def x_def[symmetric])
  next
    case False
    then have x: "x = butlast x @ [last x]" by simp
    have rx: "rev x = last x # rev (butlast x)" by (subst x) simp
    show ?thesis
    proof (cases "is_space (last x)")
      case True
      have "dropWhile is_space (rev x) = dropWhile is_space (rev (butlast x))"
        unfolding rx using True by simp
      then have "set (py_strip l) \<subseteq> set (butlast x)"
        unfolding py_strip_def x_def[symmetric] using set_dropWhileD by fastforce
      then show ?thesis using b by auto
    next
      case False
      have "dropWhile is_space (rev x) = rev x"
        unfolding rx using False by simp
      then have "py_strip l = x" by (simp add: py_strip_def x_def[symmetric])
      moreover have "last x \<noteq> LF" using False is_space_LF by auto
      ultimately show ?thesis using b x by (metis Un_iff empty_iff empty_set set_ConsD set_append)
    qed
  qed
qed

lemma first_heading_loop_chars:
  "\<forall>l\<in>set ls. CR \<notin> set l \<and> LF \<notin> set (butlast l) \<Longrightarrow> first_heading_loop ls = Some d \<Longrightarrow>
   CR \<notin> set d \<and> LF \<notin> set d"
proof (induction ls)
  case Nil then show ?case by simp
next
  case (Cons l ls)
  have n: "LF \<notin> set (py_strip l)" using Cons.prems(1) by (simp add: py_strip_no_LF)
  have c: "CR \<notin> set (py_strip l)" using Cons.prems(1) set_py_strip[of l] by auto
  have a: "set (py_strip (py_lstrip 35 (py_strip l))) \<subseteq> set (py_strip l)"
    using set_py_strip set_dropWhileD unfolding py_lstrip_def by fastforce
  have b: "set (take 80 (py_strip l)) \<subseteq> set (py_strip l)"
    by (rule set_take_subset)
  show ?case using Cons n c a b
    by (auto simp: Let_def split: if_splits)
qed

lemma get_first_heading_chars:
  "CR \<notin> set (get_first_heading fs p) \<and> LF \<notin> set (get_first_heading fs p)"
proof (cases "\<exists>c d. open_read fs p = Inr c \<and> first_heading_loop (lines_read c) = Some d")
  case True
  then obtain c d where c: "open_read fs p = Inr c"
    and d: "first_heading_loop (lines_read c) = Some d" by auto
  have "CR \<notin> set d \<and> LF \<notin> set d"
    using first_heading_loop_chars[OF _ d] lines_read_chars by blast
  then show ?thesis using c d by (simp add: get_first_heading_def)
next
  case False
  then have "get_first_heading fs p = S ''No description''"
    by (auto simp: get_first_heading_def split: sum.splits option.splits)
  then show ?thesis by simp
qed

subsection \<open>The lines of a manifest\<close>

lemma py_join_lines: "py_join [LF] (ls @ [[]]) = concat (map (\<lambda>l. l @ [LF]) ls)"
proof (induction ls)
  case Nil then show ?case by simp
next
  case (Cons a ls)
  then show ?case by (cases ls) simp_all
qed

lemma generate_lines:
  "generate_manifest_content d =
     concat (map (\<lambda>l. l @ [LF])
       ([S ''# Knowledge Manifest'', [], S ''| File | Description |'', S ''|------|-------------|''] @
        (if md_files d = [] then [S ''| *(empty)* | Add notes to this folder |'']
         else map (manifest_row d) (md_files d))))"
proof -
  have "generate_manifest_content d =
     py_join [LF]
       (([S ''# Knowledge Manifest'', [], S ''| File | Description |'', S ''|------|-------------|''] @
        (if md_files d = [] then [S ''| *(empty)* | Add notes to this folder |'']
         else map (manifest_row d) (md_files d))) @ [[]])"
    by (simp add: generate_manifest_content_def Let_def del: py_join.simps)
  then show ?thesis by (simp only: py_join_lines)
qed

lemma manifest_row_chars:
  "CR \<notin> set (stem f) \<Longrightarrow> LF \<notin> set (stem f) \<Longrightarrow>
   CR \<notin> set (manifest_row d f) \<and> LF \<notin> set (manifest_row d f)"
  using get_first_heading_chars[of "Dir d" "[f]"] by (simp add: manifest_row_def)

subsection \<open>Parsing a row\<close>

lemma take_length_le: "take (length s) xs = s \<Longrightarrow> length s \<le> length xs"
proof -
  assume "take (length s) xs = s"
  then have "length (take (length s) xs) = length s" by simp
  then show ?thesis by simp
qed

lemma take_append_le: "n \<le> length xs \<Longrightarrow> take n (xs @ ys) = take n xs"
  by simp

lemma py_strip_line:
  assumes "s \<noteq> []" and "\<not> is_space (hd s)" and "\<not> is_space (last s)"
  shows "py_strip (s @ [LF]) = s"
proof -
  have a: "dropWhile is_space (s @ [LF]) = s @ [LF]"
    using assms(1,2) by (cases s) simp_all
  have "rev (s @ [LF]) = LF # rev s" by simp
  moreover have "dropWhile is_space (rev s) = rev s"
    using assms(1,3) by (cases "rev s") (simp_all add: last_rev[symmetric] hd_rev)
  ultimately show ?thesis
    unfolding py_strip_def a using is_space_LF by simp
qed

lemma find_at_length: "find_at cs sub = Some j \<Longrightarrow> length sub \<le> length cs"
proof (induction cs arbitrary: j)
  case Nil then show ?case by (auto split: if_splits)
next
  case (Cons a cs)
  show ?case
  proof (cases "take (length sub) (a # cs) = sub")
    case True
    then show ?thesis by (rule take_length_le)
  next
    case False
    then obtain m where "find_at cs sub = Some m" using Cons.prems by auto
    then show ?thesis using Cons.IH by fastforce
  qed
qed

lemma find_at_append:
  "find_at s sub = Some i \<Longrightarrow> find_at (s @ t) sub = Some i"
proof (induction s arbitrary: i)
  case Nil
  then show ?case by (cases t) (auto split: if_splits)
next
  case (Cons c cs)
  show ?case
  proof (cases "take (length sub) (c # cs) = sub")
    case True
    then have "length sub \<le> length (c # cs)"
      by (rule take_length_le)
    then have "take (length sub) ((c # cs) @ t) = take (length sub) (c # cs)"
      by (rule take_append_le)
    then have "find_at ((c # cs) @ t) sub = Some 0" using True by simp
    moreover have "i = 0" using True Cons.prems by simp
    ultimately show ?thesis by simp
  next
    case False
    then obtain j where j: "find_at cs sub = Some j" and i: "i = Suc j"
      using Cons.prems by auto
    have "length sub \<le> length (c # cs)" using find_at_length[OF j] by simp
    then have "take (length sub) ((c # cs) @ t) = take (length sub) (c # cs)"
      by (rule take_append_le)
    then show ?thesis using False Cons.IH[OF j] i by simp
  qed
qed

lemma find_close:
  "\<not> contains (st @ [93]) [93, 93] \<Longrightarrow> find_at (st @ [93, 93]) [93, 93] = Some (length st)"
proof (induction st)
  case Nil then show ?case by simp
next
  case (Cons c cs)
  have n: "find_at (c # cs @ [93]) [93, 93] = None" using Cons.prems by (simp add: contains_def)
  then have t: "take 2 (c # cs @ [93]) \<noteq> [93, 93]" and r: "find_at (cs @ [93]) [93, 93] = None"
    by (auto split: if_splits)
  have "take 2 (c # cs @ [93, 93]) \<noteq> [93, 93]"
    using t by (cases cs) auto
  moreover have "find_at (cs @ [93, 93]) [93, 93] = Some (length cs)"
    using Cons.IH r by (simp add: contains_def)
  ultimately show ?case by simp
qed

lemma manifest_row_shape:
  "manifest_row d f = [124, 32, 91, 91] @ (stem f @ [93, 93]) @
     ([32, 124, 32] @ get_first_heading (Dir d) [f] @ [32, 124])"
  by (simp add: manifest_row_def)

lemma parse_line_row:
  assumes "plain_stem (stem f)"
  shows "parse_line (manifest_row d f @ [LF]) entries = insert (stem f) entries"
proof -
  let ?st = "stem f"
  let ?rest = "[32, 124, 32] @ get_first_heading (Dir d) [f] @ [32, 124]"
  have s: "py_strip (manifest_row d f @ [LF]) = manifest_row d f"
    by (rule py_strip_line) (simp_all add: manifest_row_def is_space_def)
  have c: "find_at (?st @ [93, 93]) [93, 93] = Some (length ?st)"
    using assms by (simp add: plain_stem_def find_close)
  have c': "find_at ((?st @ [93, 93]) @ ?rest) [93, 93] = Some (length ?st)"
    using c by (rule find_at_append)
  have e: "find_at (manifest_row d f) [93, 93] = Some (4 + length ?st)"
    unfolding manifest_row_shape using c' by (cases "(?st @ [93, 93]) @ ?rest") auto
  have b: "find_at (manifest_row d f) [91, 91] = Some 2"
    unfolding manifest_row_shape by simp
  have sl: "py_slice (manifest_row d f) 4 (4 + int (length ?st)) = ?st"
    unfolding manifest_row_shape by (simp add: py_slice_def nat_add_distrib)
  have sw: "startswith (manifest_row d f) [124]" by (simp add: manifest_row_def startswith_def)
  show ?thesis
    unfolding parse_line_def s Let_def using sl
    by (simp add: sw contains_def py_find_def b e)
qed

lemma fold_parse_rows:
  "\<forall>f\<in>set fs. plain_stem (stem f) \<Longrightarrow>
   fold parse_line (map (\<lambda>l. l @ [LF]) (map (manifest_row d) fs)) entries =
     entries \<union> stem ` set fs"
  by (induction fs arbitrary: entries) (simp_all add: parse_line_row)

lemma parse_line_header:
  "parse_line (S ''# Knowledge Manifest'' @ [LF]) e = e"
  "parse_line ([] @ [LF]) e = e"
  "parse_line (S ''| File | Description |'' @ [LF]) e = e"
  "parse_line (S ''|------|-------------|'' @ [LF]) e = e"
  "parse_line (S ''| *(empty)* | Add notes to this folder |'' @ [LF]) e = e"
  by (simp_all add: parse_line_def py_strip_def is_space_def startswith_def contains_def)

lemma parse_generated:
  assumes "\<forall>f\<in>set (md_files d). plain_stem (stem f)"
  shows "fold parse_line (lines_read (Text (generate_manifest_content d))) {} =
         stem ` set (md_files d)"
proof -
  let ?ls = "[S ''# Knowledge Manifest'', [], S ''| File | Description |'', S ''|------|-------------|''] @
        (if md_files d = [] then [S ''| *(empty)* | Add notes to this folder |'']
         else map (manifest_row d) (md_files d))"
  have rows: "\<forall>f\<in>set (md_files d). CR \<notin> set (manifest_row d f) \<and> LF \<notin> set (manifest_row d f)"
    using assms manifest_row_chars by (auto simp: plain_stem_def)
  have ch: "\<forall>l\<in>set ?ls. CR \<notin> set l \<and> LF \<notin> set l"
    using rows by simp
  have "CR \<notin> set (generate_manifest_content d)"
    unfolding generate_lines using ch by simp
  then have u: "universal_newlines (generate_manifest_content d) = generate_manifest_content d"
    by (rule universal_newlines_id)
  have "\<forall>l\<in>set ?ls. LF \<notin> set l" using ch by blast
  then have rl: "readlines (concat (map (\<lambda>l. l @ [LF]) ?ls)) = map (\<lambda>l. l @ [LF]) ?ls"
    by (rule readlines_lines)
  have r0: "lines_read (Text (generate_manifest_content d)) = readlines (generate_manifest_content d)"
    by (simp add: lines_read_def u)
  have r: "lines_read (Text (generate_manifest_content d)) = map (\<lambda>l. l @ [LF]) ?ls"
    unfolding r0 by (subst generate_lines) (rule rl)
  show ?thesis
  proof (cases "md_files d = []")
    case True
    then show ?thesis unfolding r by (simp add: parse_line_header[simplified])
  next
    case False
    then show ?thesis unfolding r
      using fold_parse_rows[OF assms, of d "{}"]
      by (simp add: parse_line_header[simplified])
  qed
qed

subsection \<open>The round trip\<close>

lemma lookup_append:
  "lookup fs (p @ q) = (case lookup fs p of Inl e \<Rightarrow> Inl e | Inr n \<Rightarrow> lookup n q)"
proof (induction p arbitrary: fs)
  case Nil
  then show ?case by simp
next
  case (Cons x xs)
  then show ?case by (auto split: node.splits sum.splits)
qed

lemma entry_file: "map_of es x = Some (File c) \<Longrightarrow> entry es x = Inr (File c)"
  by (simp add: entry_def)

lemma actual_files_md_files:
  assumes "resolve fs kd = Some (Dir d)"
  shows "get_actual_files fs kd = stem ` set (md_files d)"
  using assms
  by (simp add: get_actual_files_def md_files_def glob_md_def exists_def resolve_def)

text \<open>
  C6, as the code has it: when no stem of the folder's notes contains a line break or two
  closing brackets in a row, or ends in a closing bracket, the entries parsed from the
  manifest generated for the folder are exactly the stems of the notes in it.
\<close>

theorem manifest_round_trip:
  assumes "resolve fs knowledge_dir = Some (Dir d)"
    and "map_of d (S ''MANIFEST.md'') = Some (File (Text (generate_manifest_content d)))"
    and "list_all (\<lambda>f. plain_stem (stem f)) (md_files d)"
  shows "parse_manifest fs (knowledge_dir @ [S ''MANIFEST.md'']) = get_actual_files fs knowledge_dir \<and>
         get_actual_files fs knowledge_dir = set (map stem (md_files d))"
proof -
  have k: "lookup fs knowledge_dir = Inr (Dir d)"
    using assms(1) by (cases "lookup fs knowledge_dir") (simp_all add: resolve_def)
  have r: "lookup fs (knowledge_dir @ [S ''MANIFEST.md'']) =
      Inr (File (Text (generate_manifest_content d)))"
    unfolding lookup_append k using entry_file[OF assms(2)] by simp
  have "parse_manifest fs (knowledge_dir @ [S ''MANIFEST.md'']) =
      fold parse_line (lines_read (Text (generate_manifest_content d))) {}"
    unfolding parse_manifest_def exists_def resolve_def open_read_def r by simp
  also have "\<dots> = stem ` set (md_files d)"
    using assms(3) by (intro parse_generated) (simp add: list_all_iff)
  finally show ?thesis using actual_files_md_files[OF assms(1)] by simp
qed

lemma md_files_plain_notes: "md_files plain_notes = [S ''ab.md'']"
  by (simp add: md_files_def glob_md_def resolve_def plain_notes_def is_md_def endswith_def)

lemma md_files_plain_notes_synced: "md_files plain_notes_synced = [S ''ab.md'']"
  by (simp add: md_files_def glob_md_def resolve_def plain_notes_synced_def plain_notes_def
      is_md_def endswith_def)

lemma row_plain_notes:
  "manifest_row plain_notes (S ''ab.md'') = S ''| [[ab]] | A |''"
  "manifest_row plain_notes_synced (S ''ab.md'') = S ''| [[ab]] | A |''"
  by (simp_all add: manifest_row_def stem_def rfind_dot_def get_first_heading_def open_read_def
      entry_def plain_notes_synced_def plain_notes_def lines_read_def py_strip_def is_space_def
      startswith_def py_lstrip_def)

lemma generate_plain_notes_synced:
  "generate_manifest_content plain_notes_synced = generate_manifest_content plain_notes"
  unfolding generate_manifest_content_def md_files_plain_notes md_files_plain_notes_synced Let_def
  by (simp add: row_plain_notes[simplified])

lemma manifest_plain_notes:
  "map_of plain_notes_synced (S ''MANIFEST.md'') =
     Some (File (Text (generate_manifest_content plain_notes)))"
  by (simp add: plain_notes_synced_def plain_notes_def)

theorem manifest_round_trip_witness:
  "resolve plain_vault [] = Some (Dir plain_notes_synced) \<and>
   map_of plain_notes_synced (S ''MANIFEST.md'') =
     Some (File (Text (generate_manifest_content plain_notes_synced))) \<and>
   list_all (\<lambda>f. plain_stem (stem f)) (md_files plain_notes_synced) \<and>
   parse_manifest plain_vault ([] @ [S ''MANIFEST.md'']) = {S ''ab''} \<and>
   get_actual_files plain_vault [] = {S ''ab''}"
proof -
  have a: "resolve plain_vault [] = Some (Dir plain_notes_synced)"
    by (simp add: plain_vault_def resolve_def)
  have b: "map_of plain_notes_synced (S ''MANIFEST.md'') =
     Some (File (Text (generate_manifest_content plain_notes_synced)))"
    unfolding generate_plain_notes_synced by (rule manifest_plain_notes)
  have c: "list_all (\<lambda>f. plain_stem (stem f)) (md_files plain_notes_synced)"
    unfolding md_files_plain_notes_synced
    by (simp add: stem_def rfind_dot_def plain_stem_def contains_def)
  have s: "set (map stem (md_files plain_notes_synced)) = {S ''ab''}"
    unfolding md_files_plain_notes_synced by (simp add: stem_def rfind_dot_def)
  show ?thesis using a b c manifest_round_trip[OF a b c] s by simp
qed

lemma md_files_draft_notes: "md_files draft_notes = [S ''notes [draft].md'']"
  by (simp add: md_files_def glob_md_def resolve_def draft_notes_def is_md_def endswith_def)

lemma md_files_draft_notes_synced: "md_files draft_notes_synced = [S ''notes [draft].md'']"
  by (simp add: md_files_def glob_md_def resolve_def draft_notes_synced_def draft_notes_def
      is_md_def endswith_def)

lemma row_draft_notes:
  "manifest_row draft_notes (S ''notes [draft].md'') = S ''| [[notes [draft]]] | A |''"
  "manifest_row draft_notes_synced (S ''notes [draft].md'') = S ''| [[notes [draft]]] | A |''"
  by (simp_all add: manifest_row_def stem_def rfind_dot_def get_first_heading_def open_read_def
      entry_def draft_notes_synced_def draft_notes_def lines_read_def py_strip_def is_space_def
      startswith_def py_lstrip_def)

lemma generate_draft_notes:
  "generate_manifest_content draft_notes =
     S ''# Knowledge Manifest'' @ [LF, LF] @ S ''| File | Description |'' @ [LF] @
     S ''|------|-------------|'' @ [LF] @ S ''| [[notes [draft]]] | A |'' @ [LF]"
  unfolding generate_manifest_content_def md_files_draft_notes Let_def
  by (simp add: row_draft_notes[simplified])

lemma generate_draft_notes_synced:
  "generate_manifest_content draft_notes_synced = generate_manifest_content draft_notes"
  unfolding generate_manifest_content_def md_files_draft_notes md_files_draft_notes_synced Let_def
  by (simp add: row_draft_notes[simplified])

text \<open>
  C6, as the specification has it, fails: for the note \<open>notes [draft].md\<close> the row of the
  manifest is \<open>| [[notes [draft]]] | A |\<close>, and the parser stops at the first pair of closing
  brackets, which gives the entry \<open>notes [draft\<close>.
\<close>

theorem manifest_round_trip_counterexample:
  "map_of draft_notes_synced (S ''MANIFEST.md'') =
     Some (File (Text (generate_manifest_content draft_notes_synced))) \<and>
   parse_manifest (Dir draft_notes_synced) [S ''MANIFEST.md''] = {S ''notes [draft''} \<and>
   get_actual_files (Dir draft_notes_synced) [] = {S ''notes [draft]''} \<and>
   parse_manifest (Dir draft_notes_synced) [S ''MANIFEST.md''] \<noteq>
     get_actual_files (Dir draft_notes_synced) []"
proof -
  have m: "map_of draft_notes_synced (S ''MANIFEST.md'') =
     Some (File (Text (generate_manifest_content draft_notes)))"
    by (simp add: draft_notes_synced_def draft_notes_def)
  have l: "lookup (Dir draft_notes_synced) [S ''MANIFEST.md''] =
     Inr (File (Text (generate_manifest_content draft_notes)))"
    using entry_file[OF m] by simp
  have p: "parse_manifest (Dir draft_notes_synced) [S ''MANIFEST.md''] = {S ''notes [draft''}"
    unfolding parse_manifest_def exists_def resolve_def open_read_def
    by (simp add: l[simplified] generate_draft_notes lines_read_def)
       (simp add: py_strip_def is_space_def startswith_def parse_line_def contains_def
          py_find_def py_slice_def)
  have a: "get_actual_files (Dir draft_notes_synced) [] = {S ''notes [draft]''}"
    by (simp add: get_actual_files_def glob_md_def draft_notes_synced_def exists_def resolve_def
        draft_notes_def is_md_def endswith_def stem_def rfind_dot_def)
  show ?thesis unfolding generate_draft_notes_synced p a using m by simp
qed

section \<open>Manifest drift\<close>

lemma manifest_sync_step_eq:
  "manifest_sync_step fs vr q issues =
     (if exists fs (vr @ [q, S ''Knowledge'']) \<and>
         parse_manifest fs (vr @ [q, S ''Knowledge''] @ [S ''MANIFEST.md'']) \<noteq>
           get_actual_files fs (vr @ [q, S ''Knowledge''])
      then AList.update q
             \<lparr>add = sorted_list_of_set
                      (get_actual_files fs (vr @ [q, S ''Knowledge'']) -
                       parse_manifest fs (vr @ [q, S ''Knowledge''] @ [S ''MANIFEST.md''])),
              remove = sorted_list_of_set
                      (parse_manifest fs (vr @ [q, S ''Knowledge''] @ [S ''MANIFEST.md'']) -
                       get_actual_files fs (vr @ [q, S ''Knowledge'']))\<rparr> issues
      else issues)"
  unfolding manifest_sync_step_def Let_def by auto

lemma fold_manifest_sync:
  "map_of (fold (manifest_sync_step fs vr) ps issues) p =
     (if p \<in> set ps \<and> exists fs (vr @ [p, S ''Knowledge'']) \<and>
         parse_manifest fs (vr @ [p, S ''Knowledge''] @ [S ''MANIFEST.md'']) \<noteq>
           get_actual_files fs (vr @ [p, S ''Knowledge''])
      then Some \<lparr>add = sorted_list_of_set
                      (get_actual_files fs (vr @ [p, S ''Knowledge'']) -
                       parse_manifest fs (vr @ [p, S ''Knowledge''] @ [S ''MANIFEST.md''])),
              remove = sorted_list_of_set
                      (parse_manifest fs (vr @ [p, S ''Knowledge''] @ [S ''MANIFEST.md'']) -
                       get_actual_files fs (vr @ [p, S ''Knowledge'']))\<rparr>
      else map_of issues p)"
proof (induction ps arbitrary: issues)
  case Nil then show ?case by simp
next
  case (Cons q ps)
  show ?case
    by (simp only: fold_simps Cons.IH) (auto simp: manifest_sync_step_eq update_conv')
qed

text \<open>
  C7: the drift check returns whenever the pillars can be listed, and it reports a pillar
  exactly when the pillar has a \<open>Knowledge\<close> folder whose parsed manifest entries differ from
  the stems of its notes; \<open>add\<close> is then the sorted list of the stems with no entry and
  \<open>remove\<close> the sorted list of the entries with no note.
\<close>

theorem check_manifest_sync_reports:
  assumes "get_pillars fs vault_root = Inr pillars"
  shows "\<exists>issues. check_manifest_sync fs vault_root = Inr issues \<and>
     (\<forall>pillar. map_of issues pillar =
        (let knowledge_dir = vault_root @ [pillar, S ''Knowledge''];
             manifest_entries = parse_manifest fs (knowledge_dir @ [S ''MANIFEST.md'']);
             actual_files = get_actual_files fs knowledge_dir
         in if pillar \<in> set pillars \<and> exists fs knowledge_dir \<and> manifest_entries \<noteq> actual_files
            then Some \<lparr>add = sorted_list_of_set (actual_files - manifest_entries),
                       remove = sorted_list_of_set (manifest_entries - actual_files)\<rparr>
            else None))"
  unfolding check_manifest_sync_def assms Let_def
  by (simp add: fold_manifest_sync)

lemma ghost_pillars: "get_pillars ghost_vault [] = Inr [S ''Work'']"
  by (simp add: get_pillars_def iterdir_def ghost_vault_def is_dir_def exists_def resolve_def
      entry_def startswith_def)

theorem check_manifest_sync_reports_witness:
  "get_pillars ghost_vault [] = Inr [S ''Work''] \<and>
   parse_manifest ghost_vault [S ''Work'', S ''Knowledge'', S ''MANIFEST.md''] = {S ''Ghost''} \<and>
   get_actual_files ghost_vault [S ''Work'', S ''Knowledge''] = {S ''New''} \<and>
   (\<exists>issues. check_manifest_sync ghost_vault [] = Inr issues \<and>
      map_of issues (S ''Work'') = Some \<lparr>add = [S ''New''], remove = [S ''Ghost'']\<rparr>)"
proof -
  have e: "exists ghost_vault [S ''Work'', S ''Knowledge'']"
    by (simp add: ghost_vault_def exists_def resolve_def entry_def)
  have p: "parse_manifest ghost_vault [S ''Work'', S ''Knowledge'', S ''MANIFEST.md''] = {S ''Ghost''}"
    by (simp add: parse_manifest_def ghost_vault_def exists_def resolve_def open_read_def entry_def
        lines_read_def py_strip_def is_space_def
        startswith_def parse_line_def contains_def py_find_def py_slice_def)
  have a: "get_actual_files ghost_vault [S ''Work'', S ''Knowledge''] = {S ''New''}"
    by (simp add: get_actual_files_def glob_md_def ghost_vault_def exists_def resolve_def entry_def
        is_md_def endswith_def stem_def rfind_dot_def)
  show ?thesis
    using check_manifest_sync_reports[OF ghost_pillars] ghost_pillars e p a by (auto simp: Let_def)
qed


section \<open>The loops over files and pillars\<close>










section \<open>The last modification of a file\<close>








section \<open>A vault on the thresholds\<close>












section \<open>Thresholds and times ahead\<close>











section \<open>The checks that the scanner runs\<close>

lemma stray_pillars: "get_pillars stray_vault [] = Inr [S ''Personal'']"
  by (simp add: get_pillars_def iterdir_def stray_vault_def is_dir_def exists_def resolve_def
      entry_def startswith_def)

lemma stray_knowledge:
  "resolve stray_vault [S ''Personal'', S ''Knowledge''] = Some (Dir plain_notes_synced)"
  by (simp add: stray_vault_def resolve_def entry_def)

lemma stray_folders:
  "exists stray_vault [S ''Personal'', S ''Knowledge'']"
  "\<not> exists stray_vault [S ''Personal'', S ''Inbox'']"
  "\<not> exists stray_vault [S ''Personal'', S ''Projects'']"
  by (simp_all add: stray_vault_def exists_def resolve_def entry_def)

lemma stray_in_sync:
  "parse_manifest stray_vault [S ''Personal'', S ''Knowledge'', S ''MANIFEST.md''] =
   get_actual_files stray_vault [S ''Personal'', S ''Knowledge'']"
proof -
  have k: "lookup stray_vault [S ''Personal'', S ''Knowledge''] = Inr (Dir plain_notes_synced)"
    by (simp add: stray_vault_def entry_def)
  have m: "map_of plain_notes_synced (S ''MANIFEST.md'') =
     Some (File (Text (generate_manifest_content plain_notes_synced)))"
    unfolding generate_plain_notes_synced by (rule manifest_plain_notes)
  have r: "lookup stray_vault ([S ''Personal'', S ''Knowledge''] @ [S ''MANIFEST.md'']) =
      Inr (File (Text (generate_manifest_content plain_notes_synced)))"
    unfolding lookup_append k using entry_file[OF m] by simp
  have p: "\<forall>f\<in>set (md_files plain_notes_synced). plain_stem (stem f)"
    unfolding md_files_plain_notes_synced
    by (simp add: stem_def rfind_dot_def plain_stem_def contains_def)
  have "parse_manifest stray_vault ([S ''Personal'', S ''Knowledge''] @ [S ''MANIFEST.md'']) =
      fold parse_line (lines_read (Text (generate_manifest_content plain_notes_synced))) {}"
    unfolding parse_manifest_def exists_def resolve_def open_read_def r by simp
  also have "\<dots> = stem ` set (md_files plain_notes_synced)"
    using p by (rule parse_generated)
  finally show ?thesis using actual_files_md_files[OF stray_knowledge] by simp
qed

lemma stray_checks:
  "check_manifest_sync stray_vault [] = Inr []"
  "check_inbox_items env stray_vault [] k = Inr ([], k)"
  "check_stale_projects env stray_vault [] k = Inr ([], k)"
proof -
  show "check_manifest_sync stray_vault [] = Inr []"
    using stray_in_sync
    by (simp add: check_manifest_sync_def stray_pillars[simplified] manifest_sync_step_def Let_def
        stray_folders[simplified])
  show "check_inbox_items env stray_vault [] k = Inr ([], k)"
    by (simp add: check_inbox_items_def stray_pillars[simplified] stray_folders[simplified])
  show "check_stale_projects env stray_vault [] k = Inr ([], k)"
    by (simp add: check_stale_projects_def stray_pillars[simplified] stray_folders[simplified])
qed

text \<open>
  C2 fails on the code: the scanner runs three checks, for manifest drift, aging inbox
  items and stale projects, and the report builder takes their three results. In a vault
  whose only findings are a note at its root and a note of four characters in a
  \<open>Knowledge\<close> folder the three checks find nothing, so that the run reports no task and
  writes no report.
\<close>

theorem main_three_checks:
  "open_read stray_vault [S ''misplaced.md''] = Inr (Text (S ''content'')) \<and>
   open_read stray_vault [S ''Personal'', S ''Knowledge'', S ''ab.md''] = Inr (Text (S ''# A'')) \<and>
   check_manifest_sync stray_vault [] = Inr [] \<and>
   check_inbox_items desk_env stray_vault [] 0 = Inr ([], 0) \<and>
   check_stale_projects desk_env stray_vault [] 0 = Inr ([], 0) \<and>
   main desk_env stray_vault [] = Inr (False, None)"
proof -
  have a: "open_read stray_vault [S ''misplaced.md''] = Inr (Text (S ''content''))"
    by (simp add: open_read_def stray_vault_def entry_def)
  have b: "open_read stray_vault [S ''Personal'', S ''Knowledge'', S ''ab.md''] = Inr (Text (S ''# A''))"
    by (simp add: open_read_def stray_vault_def entry_def plain_notes_synced_def plain_notes_def)
  have "main desk_env stray_vault [] = Inr (False, None)"
    by (simp add: main_def stray_checks)
  then show ?thesis using a b stray_checks by simp
qed

theorem main_three_checks_witness:
  "fst (projr (main desk_env stray_vault [])) = False \<and>
   snd (projr (main desk_env stray_vault [])) = None"
  using main_three_checks by simp


end
